theory Spec2Isabelle
  imports Main "HOL-Library.AList" "HOL-Library.Multiset"
begin

section \<open>The thread-safe map of package concurrentmap\<close>

text \<open>
  The Go package wraps a built-in map \<^verbatim>\<open>map[interface{}]interface{}\<close> and a
  \<^verbatim>\<open>sync.RWMutex\<close>. The development below is the sequential reading of the
  package: one caller at a time, so every lock that is taken is free and is released again
  before the method returns; the field \<^verbatim>\<open>mu\<close> carries no information between
  calls and is left out of the state.

  A value of type \<^verbatim>\<open>interface{}\<close> is either \<^verbatim>\<open>nil\<close> or a concrete value.
  Go compares keys with \<^verbatim>\<open>==\<close>. The methods are modelled for keys on which
  \<^verbatim>\<open>==\<close> is reflexive, where it is HOL equality; \<^verbatim>\<open>Get\<close> and \<^verbatim>\<open>Put\<close> are modelled
  a second time with \<^verbatim>\<open>==\<close> as a parameter, which admits a key such as a floating-point
  NaN that is not equal to itself.
\<close>

datatype 'a iface = NilIface | Val 'a

subsection \<open>The built-in map\<close>

text \<open>
  The entries of a Go map are kept as a list of key/value pairs. The position of an entry in
  the list has no meaning to the program: Go does not specify the order of a \<^verbatim>\<open>range\<close>
  over a map, and the order may differ from one \<^verbatim>\<open>range\<close> statement to the next. Every
  \<^verbatim>\<open>range\<close> statement therefore receives the order it visits the entries in as an
  argument, a function that rearranges the entries.
\<close>

type_synonym ('k, 'v) entries = "('k \<times> 'v iface) list"

type_synonym ('k, 'v) visit_order = "('k, 'v) entries \<Rightarrow> ('k, 'v) entries"

definition range_order :: "('k, 'v) visit_order \<Rightarrow> ('k, 'v) entries \<Rightarrow> bool" where
  "range_order ord its \<longleftrightarrow> mset (ord its) = mset its"

text \<open>\<^verbatim>\<open>value, found = items[key]\<close>: the comma-ok form yields \<^verbatim>\<open>nil\<close> on a miss.\<close>

definition map_index :: "('k, 'v) entries \<Rightarrow> 'k \<Rightarrow> 'v iface \<times> bool" where
  "map_index its key = (case map_of its key of None \<Rightarrow> (NilIface, False) | Some v \<Rightarrow> (v, True))"

text \<open>\<^verbatim>\<open>items[key] = value\<close>, \<^verbatim>\<open>delete(items, key)\<close> and \<^verbatim>\<open>len(items)\<close>.\<close>

definition map_assign :: "('k, 'v) entries \<Rightarrow> 'k \<Rightarrow> 'v iface \<Rightarrow> ('k, 'v) entries" where
  "map_assign its key v = AList.update key v its"

definition map_delete :: "('k, 'v) entries \<Rightarrow> 'k \<Rightarrow> ('k, 'v) entries" where
  "map_delete its key = AList.delete key its"

definition len :: "('k, 'v) entries \<Rightarrow> nat" where
  "len its = length its"


subsection \<open>The type Map and its methods\<close>

record ('k, 'v) Map =
  items :: "('k, 'v) entries"

definition New :: "('k, 'v) Map" where
  "New = \<lparr>items = []\<rparr>"

text \<open>
  The callback of \<^verbatim>\<open>Range\<close> is a Go closure: besides answering whether to go on it may
  change the caller's variables, which are the state \<open>'s\<close> it is run in.
\<close>

fun range_loop :: "('k \<Rightarrow> 'v iface \<Rightarrow> 's \<Rightarrow> bool \<times> 's) \<Rightarrow> ('k, 'v) entries \<Rightarrow> 's \<Rightarrow> 's" where
  "range_loop action [] s = s"
| "range_loop action ((key, v) # rest) s =
     (case action key v s of
        (continue, s') \<Rightarrow> if \<not> continue then s' else range_loop action rest s')"

definition Range ::
  "('k, 'v) visit_order \<Rightarrow> ('k, 'v) Map \<Rightarrow> ('k \<Rightarrow> 'v iface \<Rightarrow> 's \<Rightarrow> bool \<times> 's) \<Rightarrow> 's \<Rightarrow> 's" where
  "Range ord m action s = range_loop action (ord (items m)) s"



definition Get :: "('k, 'v) Map \<Rightarrow> 'k \<Rightarrow> 'v iface \<times> bool" where
  "Get m key = map_index (items m) key"

definition Contains :: "('k, 'v) Map \<Rightarrow> 'k \<Rightarrow> bool" where
  "Contains m key = (case Get m key of (_, found) \<Rightarrow> found)"

text \<open>A method that changes the map returns its result together with the map afterwards.\<close>

definition Put :: "('k, 'v) Map \<Rightarrow> 'k \<Rightarrow> 'v iface \<Rightarrow> 'v iface \<times> ('k, 'v) Map" where
  "Put m key v = (v, m\<lparr>items := map_assign (items m) key v\<rparr>)"

text \<open>
  The mapping function is a closure as well: it runs in the caller's state \<open>'s\<close>, and it either
  returns a value (\<open>Inr\<close>) or panics with a value of type \<open>'e\<close> (\<open>Inl\<close>). It is called
  after \<^verbatim>\<open>Get\<close> has released its lock, so it may itself call methods of the map: it is
  given the map as it is at the call and returns the map as it leaves it. The argument
  \<^verbatim>\<open>compFunction(key)\<close> is evaluated before \<^verbatim>\<open>m.Put\<close> is entered, and nothing in the
  package recovers a panic.
\<close>

type_synonym ('k, 'v, 's, 'e) mapping_function =
  "'k \<Rightarrow> ('k, 'v) Map \<Rightarrow> 's \<Rightarrow> ('e + 'v iface) \<times> ('k, 'v) Map \<times> 's"

definition ComputeIfAbsent ::
  "('k, 'v) Map \<Rightarrow> 'k \<Rightarrow> ('k, 'v, 's, 'e) mapping_function \<Rightarrow> 's
     \<Rightarrow> ('e + 'v iface \<times> bool) \<times> ('k, 'v) Map \<times> 's" where
  "ComputeIfAbsent m key compFunction s =
     (case Get m key of
        (v, found) \<Rightarrow>
          if \<not> found then
            (case compFunction key m s of
               (Inl e, m1, s') \<Rightarrow> (Inl e, m1, s')
             | (Inr c, m1, s') \<Rightarrow>
                 (case Put m1 key c of (v', m2) \<Rightarrow> (Inr (v', \<not> found), m2, s')))
          else (Inr (v, \<not> found), m, s))"

definition Remove :: "('k, 'v) Map \<Rightarrow> 'k \<Rightarrow> bool \<times> ('k, 'v) Map" where
  "Remove m key =
     (case Get m key of
        (_, found) \<Rightarrow>
          if found then (found, m\<lparr>items := map_delete (items m) key\<rparr>) else (found, m))"

definition Size :: "('k, 'v) Map \<Rightarrow> nat" where
  "Size m = len (items m)"

definition Clear :: "('k, 'v) Map \<Rightarrow> ('k, 'v) Map" where
  "Clear m = m\<lparr>items := []\<rparr>"

subsection \<open>Keys that are not equal to themselves\<close>

text \<open>
  The built-in map finds the entry of a key by \<^verbatim>\<open>==\<close>. On a \<^verbatim>\<open>float64\<close> NaN, and on
  a struct or an array with a NaN in it, \<^verbatim>\<open>==\<close> is false even against the key itself,
  although such a key is comparable and hashable. Below, the comparison is an argument \<open>eq\<close>
  of the map operations: an index expression yields the first entry whose key equals the
  given one, and an assignment overwrites that entry, key included, or else adds an entry.
\<close>

fun map_index_eq :: "('k \<Rightarrow> 'k \<Rightarrow> bool) \<Rightarrow> ('k, 'v) entries \<Rightarrow> 'k \<Rightarrow> 'v iface \<times> bool" where
  "map_index_eq eq [] key = (NilIface, False)"
| "map_index_eq eq ((k, v) # rest) key =
     (if eq k key then (v, True) else map_index_eq eq rest key)"

fun map_assign_eq ::
  "('k \<Rightarrow> 'k \<Rightarrow> bool) \<Rightarrow> ('k, 'v) entries \<Rightarrow> 'k \<Rightarrow> 'v iface \<Rightarrow> ('k, 'v) entries" where
  "map_assign_eq eq [] key v = [(key, v)]"
| "map_assign_eq eq ((k, w) # rest) key v =
     (if eq k key then (key, v) # rest else (k, w) # map_assign_eq eq rest key v)"

definition Get_eq :: "('k \<Rightarrow> 'k \<Rightarrow> bool) \<Rightarrow> ('k, 'v) Map \<Rightarrow> 'k \<Rightarrow> 'v iface \<times> bool" where
  "Get_eq eq m key = map_index_eq eq (items m) key"

definition Put_eq ::
  "('k \<Rightarrow> 'k \<Rightarrow> bool) \<Rightarrow> ('k, 'v) Map \<Rightarrow> 'k \<Rightarrow> 'v iface \<Rightarrow> 'v iface \<times> ('k, 'v) Map" where
  "Put_eq eq m key v = (v, m\<lparr>items := map_assign_eq eq (items m) key v\<rparr>)"

text \<open>
  A key is a number or the NaN; \<open>float_eq\<close> is \<^verbatim>\<open>==\<close> on such keys.
\<close>

datatype float_key = NaN | Num int

fun float_eq :: "float_key \<Rightarrow> float_key \<Rightarrow> bool" where
  "float_eq (Num a) (Num b) = (a = b)"
| "float_eq _ _ = False"

subsection \<open>Observing the callbacks\<close>


type_synonym ('k, 'v) visit_log = "('k \<times> 'v iface \<times> bool) list"

definition recording ::
  "('k \<Rightarrow> 'v iface \<Rightarrow> 's \<Rightarrow> bool \<times> 's) \<Rightarrow> 'k \<Rightarrow> 'v iface \<Rightarrow> 's \<times> ('k, 'v) visit_log
     \<Rightarrow> bool \<times> 's \<times> ('k, 'v) visit_log" where
  "recording action key v =
     (\<lambda>(s, log). case action key v s of (continue, s') \<Rightarrow> (continue, s', log @ [(key, v, continue)]))"

definition visited :: "('k, 'v) visit_log \<Rightarrow> ('k, 'v) entries" where
  "visited log = map (\<lambda>(key, v, continue). (key, v)) log"

definition answers :: "('k, 'v) visit_log \<Rightarrow> bool list" where
  "answers log = map (\<lambda>(key, v, continue). continue) log"

subsection \<open>Sequences of calls\<close>

text \<open>
  A caller that uses the map alone makes one call after the other. The calls that can change
  the map are listed; a mapping function handed to \<^verbatim>\<open>ComputeIfAbsent\<close> in a sequence has
  no state of its own and leaves the map alone, and a caller goes on after a panic of the
  mapping function.
\<close>

datatype ('k, 'v, 'e) call =
    CallPut 'k "'v iface"
  | CallRemove 'k
  | CallComputeIfAbsent 'k "'k \<Rightarrow> 'e + 'v iface"
  | CallClear

fun do_call :: "('k, 'v) Map \<Rightarrow> ('k, 'v, 'e) call \<Rightarrow> ('k, 'v) Map" where
  "do_call m (CallPut key v) = snd (Put m key v)"
| "do_call m (CallRemove key) = snd (Remove m key)"
| "do_call m (CallComputeIfAbsent key f) =
     fst (snd (ComputeIfAbsent m key (\<lambda>k m1 s. (f k, m1, s)) ()))"
| "do_call m CallClear = Clear m"

definition run :: "('k, 'v, 'e) call list \<Rightarrow> ('k, 'v) Map" where
  "run calls = foldl do_call New calls"

text \<open>
  The words of the specification about \<^verbatim>\<open>Size\<close>: a key counts when it has been put and has
  not been removed afterwards. A call puts \<open>key\<close> when it is a \<^verbatim>\<open>Put\<close> of it, or a
  \<^verbatim>\<open>ComputeIfAbsent\<close> of it whose mapping function returns; a call takes \<open>key\<close> away when it
  is a \<^verbatim>\<open>Remove\<close> of it, or a \<^verbatim>\<open>Clear\<close>.
\<close>

fun puts :: "'k \<Rightarrow> ('k, 'v, 'e) call \<Rightarrow> bool" where
  "puts key (CallPut key' v) = (key = key')"
| "puts key (CallComputeIfAbsent key' f) = (case f key' of Inl e \<Rightarrow> False | Inr v \<Rightarrow> key = key')"
| "puts key _ = False"

fun takes_away :: "'k \<Rightarrow> ('k, 'v, 'e) call \<Rightarrow> bool" where
  "takes_away key (CallRemove key') = (key = key')"
| "takes_away key CallClear = True"
| "takes_away key _ = False"

definition put_not_removed :: "'k \<Rightarrow> ('k, 'v, 'e) call list \<Rightarrow> bool" where
  "put_not_removed key calls \<longleftrightarrow>
     (\<exists>i<length calls. puts key (calls ! i)
        \<and> (\<forall>c \<in> set (drop (Suc i) calls). \<not> takes_away key c))"

fun call_keys :: "('k, 'v, 'e) call \<Rightarrow> 'k list" where
  "call_keys (CallPut key v) = [key]"
| "call_keys (CallRemove key) = [key]"
| "call_keys (CallComputeIfAbsent key f) = [key]"
| "call_keys CallClear = []"

definition kept_keys :: "('k, 'v, 'e) call list \<Rightarrow> 'k list" where
  "kept_keys calls =
     filter (\<lambda>key. put_not_removed key calls) (remdups (concat (map call_keys calls)))"

text \<open>
  The same count with the words of the specification taken literally: nothing but a
  \<^verbatim>\<open>Remove\<close> of the key takes it away.
\<close>

fun removes :: "'k \<Rightarrow> ('k, 'v, 'e) call \<Rightarrow> bool" where
  "removes key (CallRemove key') = (key = key')"
| "removes key _ = False"

definition put_not_removed_literal :: "'k \<Rightarrow> ('k, 'v, 'e) call list \<Rightarrow> bool" where
  "put_not_removed_literal key calls \<longleftrightarrow>
     (\<exists>i<length calls. puts key (calls ! i)
        \<and> (\<forall>c \<in> set (drop (Suc i) calls). \<not> removes key c))"

definition kept_keys_literal :: "('k, 'v, 'e) call list \<Rightarrow> 'k list" where
  "kept_keys_literal calls =
     filter (\<lambda>key. put_not_removed_literal key calls) (remdups (concat (map call_keys calls)))"

subsection \<open>Keys and values side by side\<close>


section \<open>Lookup after the operations\<close>

lemma map_index_assign:
  "map_index (map_assign its k v) k' = (if k' = k then (v, True) else map_index its k')"
  by (simp add: map_index_def map_assign_def update_conv')

lemma map_index_delete:
  "map_index (map_delete its k) k' = (if k' = k then (NilIface, False) else map_index its k')"
  by (simp add: map_index_def map_delete_def delete_conv')

lemma map_index_absent:
  "k \<notin> fst ` set its \<Longrightarrow> map_index its k = (NilIface, False)"
proof -
  assume "k \<notin> fst ` set its"
  then have "map_of its k = None" by (simp add: map_of_eq_None_iff)
  then show ?thesis by (simp add: map_index_def)
qed


text \<open>
  On keys with reflexive equality: a key with no entry is not found, \<open>Get\<close> after \<open>Put\<close>
  returns the value put, and the second of two \<open>Put\<close>s on a key wins.
\<close>

lemma Get_after_Put:
  "(K \<notin> fst ` set (items m) \<longrightarrow> Get m K = (NilIface, False))
   \<and> Get (snd (Put m K V)) K = (V, True)
   \<and> Get (snd (Put (snd (Put m K V1)) K V2)) K = (V2, True)"
  by (simp add: Get_def Put_def map_index_assign map_index_absent)

section \<open>Lookup with the comparison of the keys as a parameter\<close>

text \<open>
  With HOL equality for \<open>eq\<close> the operations with a comparison are the operations above: the
  methods on keys with reflexive equality are an instance of the methods with \<^verbatim>\<open>==\<close>.
\<close>

lemma map_index_eq_HOL: "map_index_eq (=) its key = map_index its key"
  by (induction its) (auto simp: map_index_def)

lemma map_assign_eq_HOL: "map_assign_eq (=) its key v = map_assign its key v"
  by (induction its) (auto simp: map_assign_def)

lemma Get_eq_HOL: "Get_eq (=) m key = Get m key"
  by (simp add: Get_eq_def Get_def map_index_eq_HOL)

lemma Put_eq_HOL: "Put_eq (=) m key v = Put m key v"
  by (simp add: Put_eq_def Put_def map_assign_eq_HOL)

lemma map_index_eq_absent:
  "\<forall>k \<in> fst ` set its. \<not> eq k K \<Longrightarrow> map_index_eq eq its K = (NilIface, False)"
  by (induction its) auto

lemma map_index_eq_assign:
  "eq K K \<Longrightarrow> map_index_eq eq (map_assign_eq eq its K V) K = (V, True)"
  by (induction its) auto

text \<open>
  C1, amended. For a key \<open>K\<close> that is equal to itself under the comparison of the map: when no
  entry has a key equal to \<open>K\<close>, \<open>Get\<close> does not find \<open>K\<close>; after \<open>Put\<close> of \<open>K\<close> and \<open>V\<close>,
  \<open>Get\<close> of \<open>K\<close> returns \<open>(V, True)\<close>; and after two \<open>Put\<close>s on \<open>K\<close> the value of the second
  one is returned. The map may hold entries whose keys are not equal to themselves.
\<close>

theorem C1_get_after_put_self_equal:
  "eq K K \<Longrightarrow>
     ((\<forall>k \<in> fst ` set (items m). \<not> eq k K) \<longrightarrow> Get_eq eq m K = (NilIface, False))
     \<and> Get_eq eq (snd (Put_eq eq m K V)) K = (V, True)
     \<and> Get_eq eq (snd (Put_eq eq (snd (Put_eq eq m K V1)) K V2)) K = (V2, True)"
  by (simp add: Get_eq_def Put_eq_def map_index_eq_absent map_index_eq_assign)

theorem C1_get_after_put_self_equal_witness:
  "float_eq (Num 3) (Num 3)
   \<and> \<not> float_eq NaN (Num 3) \<and> \<not> float_eq (Num 1) (Num 3)
   \<and> Get_eq float_eq \<lparr>items = [(NaN, Val (5::nat)), (Num 1, Val 10)]\<rparr> (Num 3) = (NilIface, False)
   \<and> Get_eq float_eq
        (snd (Put_eq float_eq \<lparr>items = [(NaN, Val (5::nat)), (Num 1, Val 10)]\<rparr> (Num 3) (Val 7)))
        (Num 3) = (Val 7, True)
   \<and> Get_eq float_eq
        (snd (Put_eq float_eq
          (snd (Put_eq float_eq \<lparr>items = [(NaN, Val (5::nat)), (Num 1, Val 10)]\<rparr> (Num 3) (Val 7)))
          (Num 3) (Val 8)))
        (Num 3) = (Val 8, True)"
proof -
  have h: "float_eq (Num 3) (Num 3)" by simp
  show ?thesis
    using h C1_get_after_put_self_equal [of float_eq "Num 3",
        OF h, of "\<lparr>items = [(NaN, Val (5::nat)), (Num 1, Val 10)]\<rparr>" "Val 7" "Val 7" "Val 8"]
    by simp
qed

text \<open>
  C1 as stated fails at a key that is not equal to itself: after \<^verbatim>\<open>Put(NaN, 1)\<close> on a new
  map \<^verbatim>\<open>Get(NaN)\<close> returns \<^verbatim>\<open>(nil, false)\<close>, and a second \<^verbatim>\<open>Put(NaN, 2)\<close> adds an
  entry instead of overwriting the first.
\<close>

theorem C1_get_after_put_counterexample:
  "Get_eq float_eq (snd (Put_eq float_eq New NaN (Val (1::nat)))) NaN = (NilIface, False)
   \<and> Get_eq float_eq (snd (Put_eq float_eq New NaN (Val (1::nat)))) NaN \<noteq> (Val 1, True)
   \<and> Get_eq float_eq
        (snd (Put_eq float_eq (snd (Put_eq float_eq New NaN (Val (1::nat)))) NaN (Val 2))) NaN
       \<noteq> (Val 2, True)
   \<and> items (snd (Put_eq float_eq (snd (Put_eq float_eq New NaN (Val (1::nat)))) NaN (Val 2)))
       = [(NaN, Val 1), (NaN, Val 2)]"
  by (simp add: Get_eq_def Put_eq_def New_def)


text \<open>
  C8. \<open>Contains m K\<close> is the second component, \<open>found\<close>, of \<open>Get m K\<close>, for every map and
  every key.
\<close>

theorem C8_contains_is_get_found:
  "Contains m K = snd (Get m K)"
  by (simp add: Contains_def split: prod.splits)

text \<open>
  C10. \<open>Put\<close> and \<open>Remove\<close> on a key \<open>K\<close> leave the answer of \<open>Get\<close> for every other key
  \<open>K'\<close> as it was: found or not, and with the same value.
\<close>

theorem C10_other_keys_untouched:
  "K' \<noteq> K \<Longrightarrow>
     Get (snd (Put m K V)) K' = Get m K' \<and> Get (snd (Remove m K)) K' = Get m K'"
  by (simp add: Put_def Remove_def Get_def map_index_assign map_index_delete split: prod.splits)

theorem C10_other_keys_untouched_witness:
  "(2::nat) \<noteq> 1
   \<and> Get (snd (Put \<lparr>items = [(1::nat, Val (10::nat)), (2, Val 20)]\<rparr> 1 (Val 11))) 2 = (Val 20, True)
   \<and> Get (snd (Remove \<lparr>items = [(1::nat, Val (10::nat)), (2, Val 20)]\<rparr> 1)) 2 = (Val 20, True)
   \<and> Get \<lparr>items = [(1::nat, Val (10::nat)), (2, Val 20)]\<rparr> 2 = (Val 20, True)"
proof -
  have h: "(2::nat) \<noteq> 1" by simp
  have g: "Get \<lparr>items = [(1::nat, Val (10::nat)), (2, Val 20)]\<rparr> 2 = (Val 20, True)"
    by (simp add: Get_def map_index_def)
  show ?thesis
    using h g C10_other_keys_untouched [OF h, of "\<lparr>items = [(1::nat, Val (10::nat)), (2, Val 20)]\<rparr>" "Val 11"]
    by simp
qed

section \<open>Removing and clearing\<close>

text \<open>
  C3. \<open>Remove\<close> of a key that \<open>Get\<close> finds returns \<open>True\<close>, and \<open>Get\<close> does not find the
  key afterwards; \<open>Remove\<close> of a key that \<open>Get\<close> does not find returns \<open>False\<close> and the map
  is the one it was.
\<close>

theorem C3_remove:
  "(Get m K = (v, True) \<longrightarrow>
      fst (Remove m K) = True \<and> Get (snd (Remove m K)) K = (NilIface, False))
   \<and> (Get m K = (v, False) \<longrightarrow> Remove m K = (False, m))"
  by (simp add: Remove_def Get_def map_index_delete)

theorem C3_remove_witness:
  "Get \<lparr>items = [(1::nat, Val (10::nat)), (2, Val 20)]\<rparr> 1 = (Val 10, True)
   \<and> Remove \<lparr>items = [(1::nat, Val (10::nat)), (2, Val 20)]\<rparr> 1
       = (True, \<lparr>items = [(2, Val 20)]\<rparr>)
   \<and> Get \<lparr>items = [(2::nat, Val (20::nat))]\<rparr> 1 = (NilIface, False)
   \<and> Remove \<lparr>items = [(2::nat, Val (20::nat))]\<rparr> 1 = (False, \<lparr>items = [(2, Val 20)]\<rparr>)"
  using C3_remove [of "\<lparr>items = [(1::nat, Val (10::nat)), (2, Val 20)]\<rparr>" 1 "Val 10"]
    C3_remove [of "\<lparr>items = [(2::nat, Val (20::nat))]\<rparr>" 1 NilIface]
  by (simp add: Get_def map_index_def Remove_def map_delete_def)

text \<open>
  C4. After \<open>Clear\<close> the size is 0, and \<open>Get\<close> does not find any key that the map
  contained before.
\<close>

theorem C4_clear:
  "Size (Clear m) = 0 \<and> (\<forall>K. Contains m K \<longrightarrow> Get (Clear m) K = (NilIface, False))"
  by (simp add: Size_def Clear_def len_def Get_def map_index_def)

theorem C4_clear_witness:
  "Contains \<lparr>items = [(1::nat, Val (10::nat)), (2, Val 20)]\<rparr> 2
   \<and> Size (Clear \<lparr>items = [(1::nat, Val (10::nat)), (2, Val 20)]\<rparr>) = 0
   \<and> Get (Clear \<lparr>items = [(1::nat, Val (10::nat)), (2, Val 20)]\<rparr>) 2 = (NilIface, False)"
  using C4_clear [of "\<lparr>items = [(1::nat, Val (10::nat)), (2, Val 20)]\<rparr>"]
  by (simp add: Contains_def Get_def map_index_def)

section \<open>ComputeIfAbsent\<close>



text \<open>
  C7, amended. When the mapping function panics on a key that \<open>Get\<close> does not find,
  \<open>ComputeIfAbsent\<close> ends with that same panic value and stores nothing itself: the map
  afterwards is the map \<open>m1\<close> as the mapping function left it, which is the map as it was when
  the function has not changed it.
\<close>

theorem C7_compute_panics:
  "Get m K = (v, False) \<Longrightarrow> compFunction K m s = (Inl e, m1, s') \<Longrightarrow>
     ComputeIfAbsent m K compFunction s = (Inl e, m1, s')
     \<and> (m1 = m \<longrightarrow> ComputeIfAbsent m K compFunction s = (Inl e, m, s'))"
  by (simp add: ComputeIfAbsent_def)

theorem C7_compute_panics_witness:
  "Get \<lparr>items = [(1::nat, Val (10::nat))]\<rparr> 2 = (NilIface, False)
   \<and> (\<lambda>k m s. (Inl ''boom'' :: string + nat iface, m, Suc s))
        (2::nat) \<lparr>items = [(1::nat, Val (10::nat))]\<rparr> (0::nat)
       = (Inl ''boom'', \<lparr>items = [(1, Val 10)]\<rparr>, 1)
   \<and> ComputeIfAbsent \<lparr>items = [(1::nat, Val (10::nat))]\<rparr> 2
        (\<lambda>k m s. (Inl ''boom'' :: string + nat iface, m, Suc s)) (0::nat)
       = (Inl ''boom'', \<lparr>items = [(1, Val 10)]\<rparr>, 1)"
  using C7_compute_panics [of "\<lparr>items = [(1::nat, Val (10::nat))]\<rparr>" 2 NilIface
      "\<lambda>k m s. (Inl ''boom'' :: string + nat iface, m, Suc s)" 0 "''boom''"
      "\<lparr>items = [(1, Val 10)]\<rparr>" 1]
  by (simp add: Get_def map_index_def)

text \<open>
  C7 as stated fails for a mapping function that calls the map before it panics: on a new map,
  \<^verbatim>\<open>ComputeIfAbsent(2, f)\<close> with an \<^verbatim>\<open>f\<close> that does \<^verbatim>\<open>m.Put(2, 77)\<close> and then panics
  ends with the panic of \<^verbatim>\<open>f\<close>, and the map holds an entry for key \<open>2\<close>.
\<close>

theorem C7_compute_panics_counterexample:
  "Get (New :: (nat, nat) Map) 2 = (NilIface, False)
   \<and> ComputeIfAbsent (New :: (nat, nat) Map) 2
        (\<lambda>k m s. (Inl ''boom'', snd (Put m k (Val 77)), s)) ()
       = (Inl ''boom'', \<lparr>items = [(2, Val 77)]\<rparr>, ())
   \<and> Get \<lparr>items = [(2::nat, Val (77::nat))]\<rparr> 2 = (Val 77, True)
   \<and> \<lparr>items = [(2::nat, Val (77::nat))]\<rparr> \<noteq> New"
  by (simp add: ComputeIfAbsent_def Get_def map_index_def Put_def map_assign_def New_def)

section \<open>Range\<close>

text \<open>
  The log of a recording callback holds, in the order of the calls, the entry each call was
  made on and the answer it gave. Recording does not change what the loop does to the state
  of the callback.
\<close>

lemma range_loop_recording:
  "\<exists>log1. range_loop (recording action) es (s, log0) = (range_loop action es s, log0 @ log1)
     \<and> visited log1 = take (length log1) es
     \<and> (\<forall>i. Suc i < length log1 \<longrightarrow> answers log1 ! i)
     \<and> ((\<forall>c \<in> set (answers log1). c) \<longrightarrow> length log1 = length es)
     \<and> (\<forall>c \<in> set (answers log1). \<exists>k v t. c = fst (action k v t))"
proof (induction es arbitrary: s log0)
  case Nil
  show ?case by (simp add: visited_def answers_def)
next
  case (Cons e rest)
  obtain k v where e: "e = (k, v)" by (cases e)
  obtain c s' where a: "action k v s = (c, s')" by (cases "action k v s")
  have c_def: "c = fst (action k v s)" using a by simp
  show ?case
  proof (cases c)
    case False
    have "range_loop (recording action) (e # rest) (s, log0)
            = (range_loop action (e # rest) s, log0 @ [(k, v, False)])"
      using e a False by (simp add: recording_def)
    moreover have "visited [(k, v, False)] = take (length [(k, v, False)]) (e # rest)"
      using e by (simp add: visited_def)
    moreover have "\<forall>c \<in> set (answers [(k, v, False)]). \<exists>k v t. c = fst (action k v t)"
      using c_def False by (auto simp: answers_def)
    ultimately show ?thesis
      by (intro exI [of _ "[(k, v, False)]"]) (simp add: answers_def)
  next
    case True
    from Cons.IH [of s' "log0 @ [(k, v, True)]"] obtain log1 where
      run: "range_loop (recording action) rest (s', log0 @ [(k, v, True)])
              = (range_loop action rest s', (log0 @ [(k, v, True)]) @ log1)"
      and vis: "visited log1 = take (length log1) rest"
      and ans: "\<forall>i. Suc i < length log1 \<longrightarrow> answers log1 ! i"
      and full: "(\<forall>c \<in> set (answers log1). c) \<longrightarrow> length log1 = length rest"
      and from_action: "\<forall>c \<in> set (answers log1). \<exists>k v t. c = fst (action k v t)"
      by blast
    let ?log = "(k, v, True) # log1"
    have 1: "range_loop (recording action) (e # rest) (s, log0)
            = (range_loop action (e # rest) s, log0 @ ?log)"
      using e a True run by (simp add: recording_def)
    have 2: "visited ?log = take (length ?log) (e # rest)"
      using e vis by (simp add: visited_def)
    have 3: "\<forall>i. Suc i < length ?log \<longrightarrow> answers ?log ! i"
    proof (intro allI impI)
      fix i assume "Suc i < length ?log"
      then show "answers ?log ! i"
        using ans by (cases i) (simp_all add: answers_def)
    qed
    have 4: "(\<forall>c \<in> set (answers ?log). c) \<longrightarrow> length ?log = length (e # rest)"
      using full by (simp add: answers_def)
    have 5: "\<forall>c \<in> set (answers ?log). \<exists>k v t. c = fst (action k v t)"
      using from_action c_def True by (auto simp: answers_def)
    from 1 2 3 4 5 show ?thesis by blast
  qed
qed

text \<open>
  C9. \<open>Range\<close> run with a recording callback from an empty log: the entries the callback was
  called on are an initial stretch of the entries in the order of this \<^verbatim>\<open>range\<close>, so an
  entry is visited at most once; every call but the last one answered \<open>True\<close>, so no entry is
  visited after a call answered \<open>False\<close>; and when no call answered \<open>False\<close> (in particular
  when the callback always answers \<open>True\<close>) the entries visited are the entries of the map,
  each one once.
\<close>

theorem C9_range_visits:
  assumes "range_order ord (items m)"
    and "Range ord m (recording action) (s, []) = (s', log)"
  shows "s' = Range ord m action s
     \<and> visited log = take (length log) (ord (items m))
     \<and> (\<forall>i. Suc i < length log \<longrightarrow> answers log ! i)
     \<and> ((\<forall>c \<in> set (answers log). c) \<longrightarrow> mset (visited log) = mset (items m))
     \<and> ((\<forall>k v t. fst (action k v t)) \<longrightarrow> mset (visited log) = mset (items m))"
proof -
  from range_loop_recording [of action "ord (items m)" s "[]"] assms(2)
  have st: "s' = Range ord m action s"
    and vis: "visited log = take (length log) (ord (items m))"
    and ans: "\<forall>i. Suc i < length log \<longrightarrow> answers log ! i"
    and full: "(\<forall>c \<in> set (answers log). c) \<longrightarrow> length log = length (ord (items m))"
    and from_action: "\<forall>c \<in> set (answers log). \<exists>k v t. c = fst (action k v t)"
    by (auto simp: Range_def)
  have all: "mset (visited log) = mset (items m)" if "\<forall>c \<in> set (answers log). c"
  proof -
    from that full have "length log = length (ord (items m))" by simp
    with vis have "visited log = ord (items m)" by simp
    with assms(1) show ?thesis by (simp add: range_order_def)
  qed
  have always: "\<forall>c \<in> set (answers log). c" if "\<forall>k v t. fst (action k v t)"
    using from_action that by auto
  from st vis ans all always show ?thesis by blast
qed

theorem C9_range_visits_witness:
  "range_order rev (items \<lparr>items = [(1::nat, Val (10::nat)), (2, Val 20), (3, Val 30)]\<rparr>)
   \<and> Range rev \<lparr>items = [(1::nat, Val (10::nat)), (2, Val 20), (3, Val 30)]\<rparr>
        (recording (\<lambda>k v n. (k \<noteq> 2, Suc n))) (0::nat, [])
       = (2, [(3, Val 30, True), (2, Val 20, False)])
   \<and> Range rev \<lparr>items = [(1::nat, Val (10::nat)), (2, Val 20), (3, Val 30)]\<rparr>
        (\<lambda>k v n. (k \<noteq> 2, Suc n)) (0::nat) = 2
   \<and> visited [(3::nat, Val (30::nat), True), (2, Val 20, False)] = [(3, Val 30), (2, Val 20)]
   \<and> answers [(3::nat, Val (30::nat), True), (2, Val 20, False)] = [True, False]"
proof -
  let ?m = "\<lparr>items = [(1::nat, Val (10::nat)), (2, Val 20), (3, Val 30)]\<rparr>"
  have o: "range_order rev (items ?m)"
    by (simp add: range_order_def)
  have r: "Range rev ?m (recording (\<lambda>k v n. (k \<noteq> 2, Suc n))) (0::nat, [])
             = (2, [(3, Val 30, True), (2, Val 20, False)])"
    by (simp add: Range_def recording_def)
  show ?thesis
    using o r C9_range_visits [OF o r]
    by (simp add: visited_def answers_def)
qed

section \<open>Keys and Values\<close>









section \<open>Size along a sequence of calls\<close>
















text \<open>
  On a sequence without \<^verbatim>\<open>Clear\<close> the literal count and \<open>kept_keys\<close> are the same list.
\<close>

lemma takes_away_without_Clear: "c \<noteq> CallClear \<Longrightarrow> takes_away k c = removes k c"
  by (cases c) simp_all

lemma literal_without_Clear:
  assumes "CallClear \<notin> set calls"
  shows "kept_keys_literal calls = kept_keys calls"
proof -
  have "put_not_removed_literal k calls = put_not_removed k calls" for k
  proof -
    have "(\<forall>c \<in> set (drop (Suc i) calls). \<not> removes k c)
        = (\<forall>c \<in> set (drop (Suc i) calls). \<not> takes_away k c)" for i
    proof -
      have "c \<noteq> CallClear" if "c \<in> set (drop (Suc i) calls)" for c
        using that assms by (auto dest: in_set_dropD)
      then show ?thesis by (simp add: takes_away_without_Clear)
    qed
    then show ?thesis by (simp add: put_not_removed_literal_def put_not_removed_def)
  qed
  then show ?thesis by (simp add: kept_keys_literal_def kept_keys_def)
qed





end
